theory Spec2Isabelle
  imports Complex_Main "HOL-Library.Word"
begin

section \<open>JavaScript strings and numbers\<close>

text \<open>
  A JavaScript string is a sequence of UTF-16 code units, and \<open>length\<close>, \<open>slice\<close> and
  concatenation count code units.  String literals of the source are ASCII and are
  written through \<open>utf16\<close>.
\<close>

type_synonym js_string = "16 word list"

definition utf16 :: "string \<Rightarrow> js_string" where
  "utf16 cs = map (\<lambda>c. of_nat (of_char c)) cs"

text \<open>
  \<open>String.prototype.slice(start, end)\<close> on integer arguments: a negative index counts
  from the end, both indices are clamped to the string, and an empty range gives the
  empty string.  \<open>None\<close> is an omitted \<open>end\<close>.
\<close>

definition js_slice :: "js_string \<Rightarrow> int \<Rightarrow> int option \<Rightarrow> js_string" where
  "js_slice s start end =
     (let len = int (length s);
          from = (if start < 0 then max (len + start) 0 else min start len);
          to = (case end of
                  None \<Rightarrow> len
                | Some e \<Rightarrow> if e < 0 then max (len + e) 0 else min e len)
      in if to \<le> from then [] else take (nat (to - from)) (drop (nat from) s))"

text \<open>
  A finite JavaScript number is a double: an integer \<open>m\<close> below \<open>2^53\<close> in absolute value
  times a power of two with an exponent from \<open>-1074\<close> to \<open>971\<close>.  Its value is a rational
  number.
\<close>

definition is_double :: "rat \<Rightarrow> bool" where
  "is_double x \<longleftrightarrow>
     (\<exists>(m::int) (e::nat). \<bar>m\<bar> < 2 ^ 53
        \<and> (e \<le> 971 \<and> x = of_int m * 2 ^ e \<or> e \<le> 1074 \<and> x = of_int m / 2 ^ e))"

subsection \<open>Decimal digits\<close>

definition digit :: "nat \<Rightarrow> 16 word" where
  "digit d = of_nat (48 + d)"

function decimal :: "nat \<Rightarrow> js_string" where
  "decimal n = (if n < 10 then [digit n] else decimal (n div 10) @ [digit (n mod 10)])"
  by pat_completeness auto
termination
  by (relation "measure id") auto

declare decimal.simps [simp del]

subsection \<open>Number::toString for values from \<open>10^21\<close> on\<close>

text \<open>
  A finite double of at least \<open>2^53\<close> is a natural number.  \<open>round_double q\<close> is the
  double nearest to the natural number \<open>q\<close> (ties to the even significand): the 53
  leading bits of \<open>q\<close>, rounded.
\<close>

function bit_length :: "nat \<Rightarrow> nat" where
  "bit_length n = (if n = 0 then 0 else Suc (bit_length (n div 2)))"
  by pat_completeness auto
termination
  by (relation "measure id") auto

declare bit_length.simps [simp del]

definition round_double :: "nat \<Rightarrow> nat" where
  "round_double q =
     (let b = bit_length q
      in if b \<le> 53 then q
         else let sh = b - 53;
                  hi = q div 2 ^ sh;
                  lo = q mod 2 ^ sh;
                  half = 2 ^ (sh - 1);
                  r = (if half < lo \<or> (lo = half \<and> odd hi) then hi + 1 else hi)
              in r * 2 ^ sh)"

text \<open>
  ECMAScript's Number::toString takes integers \<open>n\<close>, \<open>k\<close>, \<open>s\<close> with
  \<open>10^(k-1) \<le> s < 10^k\<close>, \<open>s * 10^(n-k)\<close> rounding to \<open>x\<close>, and \<open>k\<close> as small as
  possible; among several \<open>s\<close> the one nearest to \<open>x\<close>, and of two equally near the even
  one.  \<open>candidates x k\<close> lists the admissible \<open>(s, n)\<close> for a given \<open>k\<close>: the multiples of
  \<open>10^(n-k)\<close> next to \<open>x\<close>, for the two possible \<open>n\<close>.
\<close>

definition candidates :: "nat \<Rightarrow> nat \<Rightarrow> (nat \<times> nat) list" where
  "candidates x k =
     (let nd = length (decimal x)
      in concat (map (\<lambda>n. concat (map (\<lambda>s.
             if 10 ^ (k - 1) \<le> s \<and> s < 10 ^ k \<and> round_double (s * 10 ^ (n - k)) = x
             then [(s, n)] else [])
           [x div 10 ^ (n - k), x div 10 ^ (n - k) + 1]))
         [nd, nd + 1]))"

definition distance :: "nat \<Rightarrow> nat \<Rightarrow> nat \<times> nat \<Rightarrow> nat" where
  "distance x k c = (case c of (s, n) \<Rightarrow>
     (if x \<le> s * 10 ^ (n - k) then s * 10 ^ (n - k) - x else x - s * 10 ^ (n - k)))"

fun nearest :: "nat \<Rightarrow> nat \<Rightarrow> nat \<times> nat \<Rightarrow> (nat \<times> nat) list \<Rightarrow> nat \<times> nat" where
  "nearest x k best [] = best"
| "nearest x k best (c # cs) =
     (if distance x k c < distance x k best
         \<or> (distance x k c = distance x k best \<and> even (fst c) \<and> odd (fst best))
      then nearest x k c cs else nearest x k best cs)"

text \<open>
  The search for the least \<open>k\<close>.  Seventeen significant digits identify every double,
  so the search ends by \<open>k = 17\<close> on a double; for any other natural number the model
  falls back on all its digits.
\<close>

function shortest_digits :: "nat \<Rightarrow> nat \<Rightarrow> nat \<times> nat \<times> nat" where
  "shortest_digits x k =
     (if 17 < k then (x, length (decimal x), length (decimal x))
      else (case candidates x k of
              [] \<Rightarrow> shortest_digits x (k + 1)
            | c # cs \<Rightarrow> (case nearest x k c cs of (s, n) \<Rightarrow> (s, k, n))))"
  by pat_completeness auto
termination
  by (relation "measure (\<lambda>(x, k). 18 - k)") auto

declare shortest_digits.simps [simp del]

text \<open>
  For \<open>x \<ge> 10^21\<close> the exponent \<open>n\<close> is above 21, so the result is in exponent notation:
  one digit, the other \<open>k - 1\<close> digits after a point if there are any, then \<open>e+\<close> and
  \<open>n - 1\<close>.
\<close>

definition Number_toString_large :: "nat \<Rightarrow> js_string" where
  "Number_toString_large x =
     (case shortest_digits x 1 of (s, k, n) \<Rightarrow>
        (if k = 1 then decimal s @ utf16 ''e+'' @ decimal (n - 1)
         else take 1 (decimal s) @ utf16 ''.'' @ drop 1 (decimal s)
                @ utf16 ''e+'' @ decimal (n - 1)))"

subsection \<open>Number.prototype.toFixed\<close>

text \<open>
  A finite double is a rational number, and \<open>toFixed\<close> works on its exact value: the
  sign is split off; from \<open>10^21\<close> on the result is Number::toString of the value;
  below, \<open>n\<close> is the integer nearest to \<open>x * 10^f\<close> (the larger of two), written in
  decimal, padded with zeros to \<open>f + 1\<close> digits, with a point before the last \<open>f\<close>.
\<close>

definition toFixed :: "rat \<Rightarrow> nat \<Rightarrow> js_string" where
  "toFixed x0 f =
     (let s = (if x0 < 0 then utf16 ''-'' else []);
          x = (if x0 < 0 then - x0 else x0)
      in if 10 ^ 21 \<le> x then s @ Number_toString_large (nat \<lfloor>x\<rfloor>)
         else
           let n = nat \<lfloor>x * 10 ^ f + 1 / 2\<rfloor>;
               m = (if n = 0 then utf16 ''0'' else decimal n);
               k = length m;
               m' = (if k \<le> f then replicate (f + 1 - k) (digit 0) @ m else m);
               k' = (if k \<le> f then f + 1 else k)
           in s @ (if f \<noteq> 0 then take (k' - f) m' @ utf16 ''.'' @ drop (k' - f) m' else m))"

section \<open>Formatting helpers of the explorer front end\<close>

text \<open>
  \<^verbatim>\<open>formatHash = (hash: string, length = 8): string\<close>; \<open>None\<close> is the omitted
  argument, which takes the default 8.
\<close>

definition formatHash :: "js_string \<Rightarrow> int option \<Rightarrow> js_string" where
  "formatHash hash len =
     (let length' = (case len of None \<Rightarrow> 8 | Some l \<Rightarrow> l)
      in if int (length hash) \<le> length' * 2 then hash
         else js_slice hash 0 (Some length') @ utf16 ''...'' @ js_slice hash (- length') None)"

definition formatAddress :: "js_string \<Rightarrow> js_string" where
  "formatAddress address = formatHash address (Some 12)"

text \<open>
  \<^verbatim>\<open>formatBytes\<close>: the \<^verbatim>\<open>while\<close> loop on \<open>size\<close> and \<open>unitIndex\<close>, then
  \<^verbatim>\<open>`${size.toFixed(2)} ${units[unitIndex]}`\<close>.  A double of at least 1024 divided by
  1024 is again a double (\<open>is_double_div_1024\<close> below), so the division of the loop is
  exact and is the division of rational numbers.  An index outside an array reads
  \<^verbatim>\<open>undefined\<close>.
\<close>

definition units :: "js_string list" where
  "units = [utf16 ''B'', utf16 ''KB'', utf16 ''MB'', utf16 ''GB'']"

definition units_at :: "nat \<Rightarrow> js_string" where
  "units_at i = (if i < length units then units ! i else utf16 ''undefined'')"

function formatBytes_loop :: "rat \<Rightarrow> nat \<Rightarrow> rat \<times> nat" where
  "formatBytes_loop size' unitIndex =
     (if 1024 \<le> size' \<and> unitIndex < length units - 1
      then formatBytes_loop (size' / 1024) (unitIndex + 1)
      else (size', unitIndex))"
  by pat_completeness auto
termination
  by (relation "measure (\<lambda>(size', unitIndex). length units - unitIndex)") auto

declare formatBytes_loop.simps [simp del]

definition formatBytes :: "rat \<Rightarrow> js_string" where
  "formatBytes bytes =
     (case formatBytes_loop bytes 0 of (size', unitIndex) \<Rightarrow>
        toFixed size' 2 @ utf16 '' '' @ units_at unitIndex)"

subsection \<open>What the formatting helpers are said to return\<close>

text \<open>
  The unit the description of \<^verbatim>\<open>formatBytes\<close> names for a number of bytes, and a
  number written with exactly two decimals: the integer part of the value rounded to
  hundredths, a point, and two digits.
\<close>

definition unit_index :: "rat \<Rightarrow> nat" where
  "unit_index bytes =
     (if bytes < 1024 then 0 else if bytes < 1024 ^ 2 then 1
      else if bytes < 1024 ^ 3 then 2 else 3)"

definition two_decimals :: "rat \<Rightarrow> js_string" where
  "two_decimals x =
     (let n = nat \<lfloor>x * 100 + 1 / 2\<rfloor>
      in decimal (n div 100) @ utf16 ''.'' @ [digit (n div 10 mod 10), digit (n mod 10)])"


section \<open>The explorer's declarations\<close>

subsection \<open>The persisted schema\<close>

text \<open>
  The \<^verbatim>\<open>CREATE TABLE\<close> statements of the initial migration, as data: each column with
  its type, its \<^verbatim>\<open>NOT NULL\<close> and \<^verbatim>\<open>PRIMARY KEY\<close> marks and its default, and the
  table's own \<^verbatim>\<open>PRIMARY KEY (...)\<close> clause.
\<close>

datatype sql_type = TEXT | INTEGER | DATETIME | BOOLEAN | BLOB | REAL

datatype sql_default = DEFAULT_INT int | DEFAULT_BOOL bool | CURRENT_TIMESTAMP

record column =
  col_name :: string
  col_type :: sql_type
  col_not_null :: bool
  col_primary_key :: bool
  col_default :: "sql_default option"

record sql_table =
  tbl_name :: string
  tbl_columns :: "column list"
  tbl_primary_key :: "string list"

definition col :: "string \<Rightarrow> sql_type \<Rightarrow> bool \<Rightarrow> column" where
  "col n t nn = \<lparr>col_name = n, col_type = t, col_not_null = nn, col_primary_key = False,
     col_default = None\<rparr>"

definition blocks :: sql_table where
  "blocks = \<lparr>tbl_name = ''blocks'',
     tbl_columns =
       [(col ''hash'' TEXT False)\<lparr>col_primary_key := True\<rparr>,
        col ''height'' INTEGER True,
        col ''version'' INTEGER True,
        col ''timestamp'' INTEGER True,
        col ''bits'' INTEGER True,
        col ''nonce'' INTEGER True,
        col ''merkle_root'' TEXT True,
        col ''accepted_id_merkle_root'' TEXT False,
        col ''utxo_commitment'' TEXT False,
        col ''daa_score'' INTEGER True,
        col ''blue_score'' INTEGER True,
        col ''blue_work'' TEXT False,
        col ''pruning_point'' TEXT False,
        col ''size'' INTEGER True,
        col ''tx_count'' INTEGER True,
        col ''coinbase_value'' INTEGER True,
        (col ''created_at'' DATETIME False)\<lparr>col_default := Some CURRENT_TIMESTAMP\<rparr>],
     tbl_primary_key = []\<rparr>"

definition block_parents :: sql_table where
  "block_parents = \<lparr>tbl_name = ''block_parents'',
     tbl_columns =
       [col ''block_hash'' TEXT True,
        col ''parent_hash'' TEXT True,
        (col ''level'' INTEGER True)\<lparr>col_default := Some (DEFAULT_INT 0)\<rparr>],
     tbl_primary_key = [''block_hash'', ''parent_hash'', ''level'']\<rparr>"

text \<open>
  The engine is SQLite.  There a column admits \<^verbatim>\<open>NULL\<close> unless it is declared
  \<^verbatim>\<open>NOT NULL\<close>; a \<^verbatim>\<open>PRIMARY KEY\<close> mark does not exclude \<^verbatim>\<open>NULL\<close>, except on an
  \<^verbatim>\<open>INTEGER PRIMARY KEY\<close> column, which stands for the row id and gets a fresh integer
  in place of a \<^verbatim>\<open>NULL\<close>.
\<close>

definition nullable :: "column \<Rightarrow> bool" where
  "nullable c \<longleftrightarrow> \<not> col_not_null c \<and> \<not> (col_primary_key c \<and> col_type c = INTEGER)"

text \<open>
  What a row of a table holds: the names of its columns in order, each with whether it
  may be \<^verbatim>\<open>NULL\<close>.
\<close>

definition row_shape :: "sql_table \<Rightarrow> (string \<times> bool) list" where
  "row_shape t = map (\<lambda>c. (col_name c, nullable c)) (tbl_columns t)"

text \<open>
  The columns of the key of a table: those marked \<^verbatim>\<open>PRIMARY KEY\<close> and those of the
  table's \<^verbatim>\<open>PRIMARY KEY (...)\<close> clause.
\<close>

definition key_columns :: "sql_table \<Rightarrow> string list" where
  "key_columns t =
     filter (\<lambda>n. n \<in> set (tbl_primary_key t)
               \<or> n \<in> set (map col_name (filter col_primary_key (tbl_columns t))))
       (map col_name (tbl_columns t))"

text \<open>
  The row shapes as the specification lists them: the columns in order, a column marked
  \<^verbatim>\<open>?\<close> with \<open>True\<close>.
\<close>

definition spec_Block :: "(string \<times> bool) list" where
  "spec_Block =
     [(''hash'', False), (''height'', False), (''version'', False), (''timestamp'', False),
      (''bits'', False), (''nonce'', False), (''merkle_root'', False),
      (''accepted_id_merkle_root'', True), (''utxo_commitment'', True),
      (''daa_score'', False), (''blue_score'', False), (''blue_work'', True),
      (''pruning_point'', True), (''size'', False), (''tx_count'', False),
      (''coinbase_value'', False)]"

definition spec_BlockParent :: "(string \<times> bool) list" where
  "spec_BlockParent = [(''block_hash'', False), (''parent_hash'', False), (''level'', False)]"

section \<open>The indexer, from its specification\<close>

text \<open>
  The repository's indexer (\<^verbatim>\<open>indexer/service.rs\<close>, \<^verbatim>\<open>block_indexer.rs\<close>,
  \<^verbatim>\<open>transaction_indexer.rs\<close>, \<^verbatim>\<open>address_indexer.rs\<close>) is not among the sources; only
  the schema it writes to is.  The rows below are the rows of that schema, and the
  operations are written from the specification's contracts.
\<close>

subsection \<open>Rows and the store\<close>

text \<open>
  One record for each table, with a field for each column but the key (the key is the
  argument of the table, a map) and but the columns the database fills in by itself
  (\<^verbatim>\<open>id\<close>, \<^verbatim>\<open>created_at\<close>, \<^verbatim>\<open>updated_at\<close>).  An \<^verbatim>\<open>INTEGER\<close>, a \<^verbatim>\<open>BOOLEAN\<close> and a
  \<^verbatim>\<open>DATETIME\<close> column hold an \<open>int\<close>, a \<open>bool\<close> and a time in seconds; a column that is
  not \<^verbatim>\<open>NOT NULL\<close> holds an option.
\<close>

type_synonym hash = string

record block_row =
  blk_height :: int
  blk_version :: int
  blk_timestamp :: int
  blk_bits :: int
  blk_nonce :: int
  blk_merkle_root :: string
  blk_accepted_id_merkle_root :: "string option"
  blk_utxo_commitment :: "string option"
  blk_daa_score :: int
  blk_blue_score :: int
  blk_blue_work :: "string option"
  blk_pruning_point :: "string option"
  blk_size :: int
  blk_tx_count :: int
  blk_coinbase_value :: int

record transaction_row =
  tx_block_hash :: "hash option"
  tx_block_height :: "int option"
  tx_index_in_block :: "int option"
  tx_version :: int
  tx_lock_time :: "int option"
  tx_input_count :: int
  tx_output_count :: int
  tx_size :: int
  tx_fee :: "int option"
  tx_value :: int
  tx_timestamp :: int
  tx_is_coinbase :: bool
  tx_is_confirmed :: bool
  tx_confirmation_count :: int

record input_row =
  in_previous_outpoint_hash :: "hash option"
  in_previous_outpoint_index :: "int option"
  in_sequence :: "int option"
  in_script_sig :: string

record output_row =
  out_value :: int
  out_script_public_key_version :: "int option"
  out_script_public_key_script :: string
  out_address :: "string option"
  out_is_spent :: bool
  out_spent_by_tx_hash :: "hash option"
  out_spent_by_input_index :: "int option"

record address_row =
  addr_first_seen_height :: "int option"
  addr_first_seen_timestamp :: "int option"
  addr_last_seen_height :: "int option"
  addr_last_seen_timestamp :: "int option"
  addr_tx_count :: int
  addr_received_count :: int
  addr_sent_count :: int
  addr_total_received :: int
  addr_total_sent :: int
  addr_balance :: int
  addr_utxo_count :: int

record mempool_row =
  mp_version :: int
  mp_lock_time :: "int option"
  mp_fee :: "int option"
  mp_size :: int
  mp_first_seen :: int
  mp_last_seen :: int

text \<open>
  The store: a table is a map from its key to its row; \<^verbatim>\<open>block_parents\<close>, all of whose
  columns are its key, is a set.
\<close>

record store =
  st_blocks :: "hash \<rightharpoonup> block_row"
  st_block_parents :: "(hash \<times> hash \<times> int) set"
  st_transactions :: "hash \<rightharpoonup> transaction_row"
  st_transaction_inputs :: "hash \<times> int \<rightharpoonup> input_row"
  st_transaction_outputs :: "hash \<times> int \<rightharpoonup> output_row"
  st_addresses :: "string \<rightharpoonup> address_row"
  st_mempool_transactions :: "hash \<rightharpoonup> mempool_row"

definition empty_store :: store where
  "empty_store = \<lparr>st_blocks = Map.empty, st_block_parents = {},
     st_transactions = Map.empty, st_transaction_inputs = Map.empty,
     st_transaction_outputs = Map.empty, st_addresses = Map.empty,
     st_mempool_transactions = Map.empty\<rparr>"

subsection \<open>The feed\<close>

text \<open>
  Modelled from the spec: the feed's \<^verbatim>\<open>{block, transactions[]}\<close> tuples, which no source
  file declares.  A block comes with its hash, the columns of its row (the blue score
  among them, ``delegated to the feed if precomputed'') and its parent hashes, each with
  its level; a transaction with its hash, the columns of its row as they stand before
  confirmation, its inputs and its outputs.  An output of the feed is an output row that
  is not spent.
\<close>

record feed_block =
  fb_hash :: hash
  fb_row :: block_row
  fb_parents :: "(hash \<times> int) list"

record feed_output =
  fo_value :: int
  fo_script_public_key_version :: "int option"
  fo_script_public_key_script :: string
  fo_address :: "string option"

record feed_tx =
  ft_hash :: hash
  ft_row :: transaction_row
  ft_inputs :: "input_row list"
  ft_outputs :: "feed_output list"

subsection \<open>Errors\<close>

text \<open>
  Modelled from the spec: the error taxonomy of its section 7, which no source file
  declares.
\<close>

datatype error =
    DanglingReference
  | AlreadySpent
  | DuplicateOutput
  | FeedUnavailable
  | StoreUnavailable

text \<open>A loop over a list that stops at the first error.\<close>

fun foldE :: "('a \<Rightarrow> 's \<Rightarrow> error + 's) \<Rightarrow> 'a list \<Rightarrow> 's \<Rightarrow> error + 's" where
  "foldE f [] s = Inr s"
| "foldE f (x # xs) s = (case f x s of Inl e \<Rightarrow> Inl e | Inr s' \<Rightarrow> foldE f xs s')"

subsection \<open>UTXO Ledger\<close>

text \<open>
  Modelled from the spec: \<^verbatim>\<open>spend(txHash, index, spenderTx, spenderInput)\<close> of the UTXO
  Ledger, absent from the sources.  It ``fails with \<^verbatim>\<open>AlreadySpent\<close> if the target row's
  spent flag is already true'', and marks the row spent, recording the spender,
  otherwise; a target row that does not exist is the \<^verbatim>\<open>DanglingReference\<close> of step 3
  of \<^verbatim>\<open>applyBlock\<close>.
\<close>

definition spend :: "store \<Rightarrow> hash \<Rightarrow> int \<Rightarrow> hash \<Rightarrow> int \<Rightarrow> error + store" where
  "spend s txHash index spenderTx spenderInput =
     (case st_transaction_outputs s (txHash, index) of
        None \<Rightarrow> Inl DanglingReference
      | Some row \<Rightarrow>
          if out_is_spent row then Inl AlreadySpent
          else Inr (s\<lparr>st_transaction_outputs := (st_transaction_outputs s)
                 ((txHash, index) \<mapsto> row\<lparr>out_is_spent := True,
                    out_spent_by_tx_hash := Some spenderTx,
                    out_spent_by_input_index := Some spenderInput\<rparr>)\<rparr>))"

text \<open>
  Modelled from the spec: \<^verbatim>\<open>create(output)\<close> of the UTXO Ledger, absent from the
  sources.  It ``fails with \<^verbatim>\<open>DuplicateOutput\<close> if \<^verbatim>\<open>(txHash, index)\<close> already exists'',
  and inserts the output, unspent, otherwise.
\<close>

definition create :: "store \<Rightarrow> hash \<Rightarrow> int \<Rightarrow> feed_output \<Rightarrow> error + store" where
  "create s txHash index output =
     (case st_transaction_outputs s (txHash, index) of
        Some row \<Rightarrow> Inl DuplicateOutput
      | None \<Rightarrow>
          Inr (s\<lparr>st_transaction_outputs := (st_transaction_outputs s)
                 ((txHash, index) \<mapsto> \<lparr>out_value = fo_value output,
                    out_script_public_key_version = fo_script_public_key_version output,
                    out_script_public_key_script = fo_script_public_key_script output,
                    out_address = fo_address output,
                    out_is_spent = False,
                    out_spent_by_tx_hash = None,
                    out_spent_by_input_index = None\<rparr>)\<rparr>))"

subsection \<open>Address Ledger\<close>

text \<open>
  Modelled from the spec: \<^verbatim>\<open>applyDelta(address, receivedDelta, sentDelta,
  utxoCountDelta, seenAt)\<close> of the Address Ledger, absent from the sources.  The totals, the
  balance and the UTXO count move by the deltas; ``\<^verbatim>\<open>first_seen\<close> is set only if unset;
  \<^verbatim>\<open>last_seen\<close> is always advanced to the greater of current and new height/timestamp''.
  An address seen for the first time starts from the defaults of the schema.  The contract
  names no delta for the three counts, which stay as they are.
\<close>

record delta =
  d_address :: string
  d_receivedDelta :: int
  d_sentDelta :: int
  d_utxoCountDelta :: int
  d_seenAt :: "int \<times> int"

definition new_address :: address_row where
  "new_address = \<lparr>addr_first_seen_height = None, addr_first_seen_timestamp = None,
     addr_last_seen_height = None, addr_last_seen_timestamp = None,
     addr_tx_count = 0, addr_received_count = 0, addr_sent_count = 0,
     addr_total_received = 0, addr_total_sent = 0, addr_balance = 0, addr_utxo_count = 0\<rparr>"

definition set_if_unset :: "int option \<Rightarrow> int \<Rightarrow> int option" where
  "set_if_unset current new = (case current of None \<Rightarrow> Some new | Some c \<Rightarrow> Some c)"

definition advance :: "int option \<Rightarrow> int \<Rightarrow> int option" where
  "advance current new = (case current of None \<Rightarrow> Some new | Some c \<Rightarrow> Some (max c new))"

definition applyDelta :: "delta \<Rightarrow> store \<Rightarrow> store" where
  "applyDelta d s =
     (let row = (case st_addresses s (d_address d) of None \<Rightarrow> new_address | Some r \<Rightarrow> r);
          row' = row\<lparr>
            addr_first_seen_height := set_if_unset (addr_first_seen_height row) (fst (d_seenAt d)),
            addr_first_seen_timestamp :=
              set_if_unset (addr_first_seen_timestamp row) (snd (d_seenAt d)),
            addr_last_seen_height := advance (addr_last_seen_height row) (fst (d_seenAt d)),
            addr_last_seen_timestamp := advance (addr_last_seen_timestamp row) (snd (d_seenAt d)),
            addr_total_received := addr_total_received row + d_receivedDelta d,
            addr_total_sent := addr_total_sent row + d_sentDelta d,
            addr_balance := addr_balance row + d_receivedDelta d - d_sentDelta d,
            addr_utxo_count := addr_utxo_count row + d_utxoCountDelta d\<rparr>
      in s\<lparr>st_addresses := (st_addresses s)(d_address d \<mapsto> row')\<rparr>)"

subsection \<open>Mempool Tracker\<close>

text \<open>
  Modelled from the spec: \<^verbatim>\<open>observe(tx)\<close>, \<^verbatim>\<open>confirm(txHash)\<close> and the eviction policy
  of the Mempool Tracker, absent from the sources.  \<^verbatim>\<open>observe\<close> ``inserts or refreshes
  \<^verbatim>\<open>last_seen\<close>''; \<^verbatim>\<open>confirm\<close> ``removes the row''; the eviction policy is the one the
  specification gives as its example, a time to live: a row not seen for longer than
  \<open>ttl\<close> goes.  A mempool notification of the feed carries the hash and the columns of
  the row other than the two times.
\<close>

record mempool_tx =
  mt_hash :: hash
  mt_version :: int
  mt_lock_time :: "int option"
  mt_fee :: "int option"
  mt_size :: int

definition observe :: "int \<Rightarrow> mempool_tx \<Rightarrow> store \<Rightarrow> store" where
  "observe now tx s =
     (case st_mempool_transactions s (mt_hash tx) of
        Some row \<Rightarrow>
          s\<lparr>st_mempool_transactions := (st_mempool_transactions s)
               (mt_hash tx \<mapsto> row\<lparr>mp_last_seen := now\<rparr>)\<rparr>
      | None \<Rightarrow>
          s\<lparr>st_mempool_transactions := (st_mempool_transactions s)
               (mt_hash tx \<mapsto> \<lparr>mp_version = mt_version tx, mp_lock_time = mt_lock_time tx,
                  mp_fee = mt_fee tx, mp_size = mt_size tx,
                  mp_first_seen = now, mp_last_seen = now\<rparr>)\<rparr>)"

definition confirm :: "hash \<Rightarrow> store \<Rightarrow> store" where
  "confirm txHash s =
     s\<lparr>st_mempool_transactions := (st_mempool_transactions s)(txHash := None)\<rparr>"

definition expired :: "int \<Rightarrow> int \<Rightarrow> mempool_row \<Rightarrow> bool" where
  "expired now ttl row = (mp_last_seen row + ttl < now)"

definition evict :: "int \<Rightarrow> int \<Rightarrow> store \<Rightarrow> store" where
  "evict now ttl s =
     s\<lparr>st_mempool_transactions := (\<lambda>h.
         case st_mempool_transactions s h of
           None \<Rightarrow> None
         | Some row \<Rightarrow> if expired now ttl row then None else Some row)\<rparr>"

subsection \<open>Indexer Pipeline\<close>

text \<open>
  Modelled from the spec: the five steps of \<^verbatim>\<open>applyBlock(block, transactions)\<close>, absent
  from the sources, each as the specification words it.

  Step 1: ``insert the Block row and its parent edges''.
\<close>

definition insert_block :: "feed_block \<Rightarrow> store \<Rightarrow> store" where
  "insert_block block s =
     s\<lparr>st_blocks := (st_blocks s)(fb_hash block \<mapsto> fb_row block),
       st_block_parents := st_block_parents s
         \<union> set (map (\<lambda>(parent, level). (fb_hash block, parent, level)) (fb_parents block))\<rparr>"

text \<open>
  Modelled from the spec: step 2 of \<^verbatim>\<open>applyBlock\<close>, ``for each transaction:
  insert/update the Transaction row, marking \<^verbatim>\<open>is_confirmed=true\<close> and removing any
  matching row from Mempool Tracker''.  The row is the feed's, with the owning block, its
  height and the position in the block filled in.
\<close>

definition confirm_transaction :: "feed_block \<Rightarrow> nat \<times> feed_tx \<Rightarrow> store \<Rightarrow> store" where
  "confirm_transaction block itx s =
     (case itx of (i, tx) \<Rightarrow>
        confirm (ft_hash tx)
          (s\<lparr>st_transactions := (st_transactions s)
               (ft_hash tx \<mapsto> (ft_row tx)\<lparr>tx_block_hash := Some (fb_hash block),
                  tx_block_height := Some (blk_height (fb_row block)),
                  tx_index_in_block := Some (int i),
                  tx_is_confirmed := True\<rparr>)\<rparr>))"

definition confirm_transactions :: "feed_block \<Rightarrow> feed_tx list \<Rightarrow> store \<Rightarrow> store" where
  "confirm_transactions block transactions s =
     fold (confirm_transaction block) (enumerate 0 transactions) s"

text \<open>
  Modelled from the spec: the inputs and the outputs that steps 3 and 4 of
  \<^verbatim>\<open>applyBlock\<close> go through, each with the hash of its transaction and its index
  there.
\<close>

definition block_inputs :: "feed_tx list \<Rightarrow> (hash \<times> int \<times> input_row) list" where
  "block_inputs transactions =
     concat (map (\<lambda>tx. map (\<lambda>(i, inp). (ft_hash tx, int i, inp)) (enumerate 0 (ft_inputs tx)))
       transactions)"

definition block_outputs :: "feed_tx list \<Rightarrow> (hash \<times> int \<times> feed_output) list" where
  "block_outputs transactions =
     concat (map (\<lambda>tx. map (\<lambda>(i, out). (ft_hash tx, int i, out)) (enumerate 0 (ft_outputs tx)))
       transactions)"

text \<open>
  Modelled from the spec: the output an input refers to, if it refers to one (a coinbase
  input has no previous outpoint), and the address delta of step 5 for an output that is
  spent and for one that is created.  \<open>seenAt\<close> is the height and the timestamp of the
  block.
\<close>

definition previous_outpoint :: "input_row \<Rightarrow> (hash \<times> int) option" where
  "previous_outpoint inp =
     (case (in_previous_outpoint_hash inp, in_previous_outpoint_index inp) of
        (Some h, Some i) \<Rightarrow> Some (h, i)
      | _ \<Rightarrow> None)"

definition sent_delta :: "int \<times> int \<Rightarrow> output_row \<Rightarrow> delta list" where
  "sent_delta seenAt row =
     (case out_address row of
        None \<Rightarrow> []
      | Some a \<Rightarrow> [\<lparr>d_address = a, d_receivedDelta = 0, d_sentDelta = out_value row,
                     d_utxoCountDelta = - 1, d_seenAt = seenAt\<rparr>])"

definition received_delta :: "int \<times> int \<Rightarrow> feed_output \<Rightarrow> delta list" where
  "received_delta seenAt output =
     (case fo_address output of
        None \<Rightarrow> []
      | Some a \<Rightarrow> [\<lparr>d_address = a, d_receivedDelta = fo_value output, d_sentDelta = 0,
                     d_utxoCountDelta = 1, d_seenAt = seenAt\<rparr>])"

text \<open>
  Modelled from the spec: step 3 of \<^verbatim>\<open>applyBlock\<close>, ``for each input: mark the
  referenced UTXO row spent, recording the spender; if the referenced output does not yet
  exist [...], the apply fails with a \<^verbatim>\<open>DanglingReference\<close> condition''.  The pipeline
  is the writer of the TxInput rows too; the row of an input is written here, with the
  input's spend.
\<close>

definition spend_input ::
  "int \<times> int \<Rightarrow> hash \<times> int \<times> input_row \<Rightarrow> store \<times> delta list \<Rightarrow> error + store \<times> delta list"
where
  "spend_input seenAt input sd =
     (case (input, sd) of ((txHash, i, inp), (s, deltas)) \<Rightarrow>
        (case previous_outpoint inp of
           None \<Rightarrow>
             Inr (s\<lparr>st_transaction_inputs := (st_transaction_inputs s)((txHash, i) \<mapsto> inp)\<rparr>,
                  deltas)
         | Some (prevHash, prevIndex) \<Rightarrow>
             (case spend s prevHash prevIndex txHash i of
                Inl e \<Rightarrow> Inl e
              | Inr s' \<Rightarrow>
                  Inr (s'\<lparr>st_transaction_inputs :=
                           (st_transaction_inputs s')((txHash, i) \<mapsto> inp)\<rparr>,
                       deltas @ (case st_transaction_outputs s (prevHash, prevIndex) of
                                   None \<Rightarrow> []
                                 | Some row \<Rightarrow> sent_delta seenAt row)))))"

text \<open>
  Modelled from the spec: step 4 of \<^verbatim>\<open>applyBlock\<close>, ``for each output: insert a new
  UTXO row'', through \<^verbatim>\<open>create\<close>.
\<close>

definition create_output ::
  "int \<times> int \<Rightarrow> hash \<times> int \<times> feed_output \<Rightarrow> store \<times> delta list \<Rightarrow> error + store \<times> delta list"
where
  "create_output seenAt output sd =
     (case (output, sd) of ((txHash, i, out), (s, deltas)) \<Rightarrow>
        (case create s txHash i out of
           Inl e \<Rightarrow> Inl e
         | Inr s' \<Rightarrow> Inr (s', deltas @ received_delta seenAt out)))"

text \<open>
  Modelled from the spec: the five steps of \<^verbatim>\<open>applyBlock\<close> in order, on a block that
  is new and whose parents are indexed.  Step 5: ``compute per-address deltas [...] from
  steps 3--4 and hand them to the Address Ledger as one batched delta set''.
\<close>

definition apply_steps :: "feed_block \<Rightarrow> feed_tx list \<Rightarrow> store \<Rightarrow> error + store" where
  "apply_steps block transactions s =
     (let seenAt = (blk_height (fb_row block), blk_timestamp (fb_row block));
          s1 = insert_block block s;
          s2 = confirm_transactions block transactions s1
      in case foldE (spend_input seenAt) (block_inputs transactions) (s2, []) of
           Inl e \<Rightarrow> Inl e
         | Inr sd3 \<Rightarrow>
             (case foldE (create_output seenAt) (block_outputs transactions) sd3 of
                Inl e \<Rightarrow> Inl e
              | Inr (s4, deltas) \<Rightarrow> Inr (fold applyDelta deltas s4)))"

text \<open>
  Modelled from the spec: \<^verbatim>\<open>applyBlock(block, transactions)\<close> of the Indexer Pipeline,
  absent from the sources.  ``Re-applying an already-applied block hash is a no-op,
  detected via the Block primary key''; a parent that is not indexed is an ancestor not
  yet indexed, a \<^verbatim>\<open>DanglingReference\<close>; and ``the whole block apply is transactional --
  any step failing rolls back all five steps for that block''.  The result is the store
  after the call and the error, if there is one.
\<close>

definition applyBlock :: "feed_block \<Rightarrow> feed_tx list \<Rightarrow> store \<Rightarrow> store \<times> error option" where
  "applyBlock block transactions s =
     (if fb_hash block \<in> dom (st_blocks s) then (s, None)
      else if \<not> list_all (\<lambda>(parent, level). parent \<in> dom (st_blocks s)) (fb_parents block)
      then (s, Some DanglingReference)
      else (case apply_steps block transactions s of
              Inl e \<Rightarrow> (s, Some e)
            | Inr s' \<Rightarrow> (s', None)))"



subsection \<open>Sequences of operations on the mempool\<close>

text \<open>
  Modelled from the spec: the operations that touch the Mempool Tracker, absent from the
  sources: an observation of an unconfirmed transaction at a time, the application of a
  block (whose step 2 confirms), and an eviction at a time with a time to live.
\<close>

datatype operation =
    Observe int mempool_tx
  | ApplyBlock feed_block "feed_tx list"
  | Evict int int

fun perform :: "store \<Rightarrow> operation \<Rightarrow> store" where
  "perform s (Observe now tx) = observe now tx s"
| "perform s (ApplyBlock block transactions) = fst (applyBlock block transactions s)"
| "perform s (Evict now ttl) = evict now ttl s"

definition run :: "store \<Rightarrow> operation list \<Rightarrow> store" where
  "run s ops = foldl perform s ops"

text \<open>
  Modelled from the spec: what an operation does to a transaction of the mempool; it confirms it when it applies
  a new block that holds the transaction, and the apply succeeds; it evicts it when it is
  an eviction and the row has expired.
\<close>

definition confirms :: "store \<Rightarrow> operation \<Rightarrow> hash \<Rightarrow> bool" where
  "confirms s op h =
     (case op of
        ApplyBlock block transactions \<Rightarrow>
          fb_hash block \<notin> dom (st_blocks s)
          \<and> snd (applyBlock block transactions s) = None
          \<and> h \<in> set (map ft_hash transactions)
      | _ \<Rightarrow> False)"

definition evicts :: "store \<Rightarrow> operation \<Rightarrow> hash \<Rightarrow> bool" where
  "evicts s op h =
     (case op of
        Evict now ttl \<Rightarrow>
          (case st_mempool_transactions s h of None \<Rightarrow> False | Some row \<Rightarrow> expired now ttl row)
      | _ \<Rightarrow> False)"

definition holds :: "operation \<Rightarrow> hash \<Rightarrow> bool" where
  "holds op h =
     (case op of
        ApplyBlock block transactions \<Rightarrow> h \<in> set (map ft_hash transactions)
      | _ \<Rightarrow> False)"

subsection \<open>The outputs a block refers to\<close>


subsection \<open>What steps 3 to 5 leave as it is\<close>

text \<open>
  Spending, creating outputs and address deltas touch neither the blocks and their
  edges, nor the transactions, nor the mempool.
\<close>

definition same_ledger :: "store \<Rightarrow> store \<Rightarrow> bool" where
  "same_ledger s t \<longleftrightarrow>
     st_blocks t = st_blocks s \<and> st_block_parents t = st_block_parents s
     \<and> st_transactions t = st_transactions s
     \<and> st_mempool_transactions t = st_mempool_transactions s"

subsection \<open>The scenario of the specification\<close>

text \<open>
  Modelled from the spec: the blocks of its scenario.  The genesis block \<open>G\<close> at height
  0 has no parents and one coinbase transaction, whose output \<open>O0\<close> has no address;
  block \<open>B1\<close>, with parent \<open>G\<close>, has one transaction, which spends \<open>O0\<close> to \<open>addr1\<close> with
  value 500.  Block \<open>B2\<close>, a sibling of \<open>B1\<close>, holds a transaction that spends \<open>O0\<close> and
  then an output no block has created; block \<open>B3\<close>, another sibling, holds a transaction
  that spends \<open>O0\<close> twice and then an output no block has created.
\<close>

definition header :: "int \<Rightarrow> block_row" where
  "header h = \<lparr>blk_height = h, blk_version = 1, blk_timestamp = 1700000000 + h,
     blk_bits = 0, blk_nonce = 0, blk_merkle_root = [],
     blk_accepted_id_merkle_root = None, blk_utxo_commitment = None,
     blk_daa_score = h, blk_blue_score = h, blk_blue_work = None,
     blk_pruning_point = None, blk_size = 0, blk_tx_count = 1, blk_coinbase_value = 500\<rparr>"

definition pending :: "int \<Rightarrow> int \<Rightarrow> bool \<Rightarrow> transaction_row" where
  "pending n_in n_out coinbase = \<lparr>tx_block_hash = None, tx_block_height = None,
     tx_index_in_block = None, tx_version = 1, tx_lock_time = None,
     tx_input_count = n_in, tx_output_count = n_out, tx_size = 0, tx_fee = None,
     tx_value = 500, tx_timestamp = 1700000000, tx_is_coinbase = coinbase,
     tx_is_confirmed = False, tx_confirmation_count = 0\<rparr>"

definition pays :: "string option \<Rightarrow> feed_output" where
  "pays a = \<lparr>fo_value = 500, fo_script_public_key_version = None,
     fo_script_public_key_script = [], fo_address = a\<rparr>"

definition spends :: "hash \<Rightarrow> int \<Rightarrow> input_row" where
  "spends h i = \<lparr>in_previous_outpoint_hash = Some h, in_previous_outpoint_index = Some i,
     in_sequence = None, in_script_sig = []\<rparr>"

definition G :: feed_block where
  "G = \<lparr>fb_hash = ''G'', fb_row = header 0, fb_parents = []\<rparr>"

definition T0 :: feed_tx where
  "T0 = \<lparr>ft_hash = ''T0'', ft_row = pending 0 1 True, ft_inputs = [],
     ft_outputs = [pays None]\<rparr>"

definition B1 :: feed_block where
  "B1 = \<lparr>fb_hash = ''B1'', fb_row = header 1, fb_parents = [(''G'', 0)]\<rparr>"

definition T1 :: feed_tx where
  "T1 = \<lparr>ft_hash = ''T1'', ft_row = pending 1 1 False, ft_inputs = [spends ''T0'' 0],
     ft_outputs = [pays (Some ''addr1'')]\<rparr>"





definition after_G :: store where
  "after_G = fst (applyBlock G [T0] empty_store)"

text \<open>
  The transaction of \<open>B1\<close> as the mempool sees it before \<open>B1\<close> arrives, the store that has
  observed it, and the pipeline that is about to receive \<open>B2\<close>.
\<close>

definition M1 :: mempool_tx where
  "M1 = \<lparr>mt_hash = ''T1'', mt_version = 1, mt_lock_time = None, mt_fee = None,
     mt_size = 0\<rparr>"

definition observed :: store where
  "observed = observe 1700000000 M1 after_G"


section \<open>Properties of the formatting helpers\<close>

lemma js_slice_prefix:
  "0 \<le> n \<Longrightarrow> n \<le> int (length s) \<Longrightarrow> js_slice s 0 (Some n) = take (nat n) s"
  by (auto simp: js_slice_def Let_def)

lemma js_slice_suffix:
  "0 < n \<Longrightarrow> n \<le> int (length s) \<Longrightarrow> js_slice s (- n) None = drop (length s - nat n) s"
  by (auto simp: js_slice_def Let_def nat_diff_distrib)

lemma length_utf16 [simp]: "length (utf16 cs) = length cs"
  by (simp add: utf16_def)

text \<open>
  Claim C9.  For a positive integer \<open>length\<close>, \<^verbatim>\<open>formatHash\<close> returns the hash as it
  is when it has at most \<open>2 * length\<close> code units, and otherwise its first \<open>length\<close>
  code units, three dots, and its last \<open>length\<close> code units, \<open>2 * length + 3\<close> code
  units in all; the omitted \<open>length\<close> is 8; \<^verbatim>\<open>formatAddress\<close> is \<^verbatim>\<open>formatHash\<close>
  with length 12.
\<close>

theorem formatHash_spec:
  "0 < n \<Longrightarrow>
     formatHash h (Some n) =
       (if length h \<le> 2 * nat n then h
        else take (nat n) h @ utf16 ''...'' @ drop (length h - nat n) h)
     \<and> (2 * nat n < length h \<longrightarrow> length (formatHash h (Some n)) = 2 * nat n + 3)
     \<and> formatHash h None = formatHash h (Some 8)
     \<and> formatAddress h = formatHash h (Some 12)"
proof -
  assume n: "0 < n"
  have short: "int (length h) \<le> n * 2 \<longleftrightarrow> length h \<le> 2 * nat n"
    using n by linarith
  have eq: "formatHash h (Some n) =
       (if length h \<le> 2 * nat n then h
        else take (nat n) h @ utf16 ''...'' @ drop (length h - nat n) h)"
  proof (cases "length h \<le> 2 * nat n")
    case True
    then show ?thesis by (simp add: formatHash_def short)
  next
    case False
    then have len: "n \<le> int (length h)" using n by linarith
    from False show ?thesis
      using n len by (simp add: formatHash_def short js_slice_prefix js_slice_suffix)
  qed
  have "length (formatHash h (Some n)) = 2 * nat n + 3" if "2 * nat n < length h"
  proof -
    have "nat n \<le> length h" using that by linarith
    then show ?thesis using that by (simp add: eq min_def)
  qed
  then show ?thesis using eq by (simp add: formatHash_def formatAddress_def)
qed

theorem formatHash_spec_witness:
  "(0::int) < 2 \<and> formatHash (utf16 ''abcdefghij'') (Some 2) = utf16 ''ab...ij''
   \<and> length (formatHash (utf16 ''abcdefghij'') (Some 2)) = 7
   \<and> formatHash (utf16 ''abcd'') (Some 2) = utf16 ''abcd''"
  using formatHash_spec [of 2 "utf16 ''abcdefghij''"] formatHash_spec [of 2 "utf16 ''abcd''"]
  by (simp add: utf16_def)

text \<open>
  The loop of \<^verbatim>\<open>formatBytes\<close> divides only doubles of at least 1024, and the quotient
  is a double again: the division loses nothing.
\<close>

lemma is_double_div_power:
  assumes "is_double x" and "2 ^ k \<le> x" and "k \<le> 1074"
  shows "is_double (x / 2 ^ k)"
proof -
  from assms(1) obtain m :: int and e :: nat where m: "\<bar>m\<bar> < 2 ^ 53"
    and x: "e \<le> 971 \<and> x = of_int m * 2 ^ e \<or> e \<le> 1074 \<and> x = of_int m / 2 ^ e"
    unfolding is_double_def by blast
  from x show ?thesis
  proof
    assume a: "e \<le> 971 \<and> x = of_int m * 2 ^ e"
    show ?thesis
    proof (cases "k \<le> e")
      case True
      then obtain d where d: "e = d + k" by (metis le_add_diff_inverse2)
      with a have "x / 2 ^ k = of_int m * 2 ^ d"
        by (simp add: power_add)
      moreover have "d \<le> 971" using a d by simp
      ultimately show ?thesis using m unfolding is_double_def by blast
    next
      case False
      then obtain d where d: "k = d + e" by (metis le_add_diff_inverse2 nat_le_linear)
      with a have "x / 2 ^ k = of_int m / 2 ^ d"
        by (simp add: power_add)
      moreover have "d \<le> 1074" using assms(3) d by simp
      ultimately show ?thesis using m unfolding is_double_def by blast
    qed
  next
    assume a: "e \<le> 1074 \<and> x = of_int m / 2 ^ e"
    have "e + k < 53"
    proof (rule ccontr)
      assume "\<not> e + k < 53"
      then have "(2::rat) ^ 53 \<le> 2 ^ (e + k)"
        by (intro power_increasing) simp_all
      moreover have "(of_int m :: rat) < 2 ^ 53"
        using m by (metis abs_less_iff of_int_less_iff of_int_numeral of_int_power)
      ultimately have "of_int m < (2::rat) ^ e * 2 ^ k"
        by (simp add: power_add)
      then have "of_int m / 2 ^ e < (2::rat) ^ k"
        by (simp add: field_simps)
      with a assms(2) show False by simp
    qed
    then have "e + k \<le> 1074" by simp
    moreover have "x / 2 ^ k = of_int m / 2 ^ (e + k)"
      using a by (simp add: power_add)
    ultimately show ?thesis using m unfolding is_double_def by blast
  qed
qed

lemma is_double_div_1024:
  assumes "is_double x" and "1024 \<le> x"
  shows "is_double (x / 1024)"
  using is_double_div_power [of x 10] assms by simp

lemma is_double_1e21_GB: "is_double (10 ^ 21 * 1024 ^ 3)"
proof -
  have "\<bar>476837158203125 :: int\<bar> < 2 ^ 53" by simp
  moreover have "(51::nat) \<le> 971" by simp
  moreover have "(10 ^ 21 * 1024 ^ 3 :: rat) = of_int 476837158203125 * 2 ^ 51" by simp
  ultimately show ?thesis unfolding is_double_def by blast
qed

lemma formatBytes_loop_stop:
  "x < 1024 \<or> 3 \<le> i \<Longrightarrow> formatBytes_loop x i = (x, i)"
  by (subst formatBytes_loop.simps) (auto simp: units_def)

lemma formatBytes_loop_step:
  "1024 \<le> x \<Longrightarrow> i < 3 \<Longrightarrow> formatBytes_loop x i = formatBytes_loop (x / 1024) (Suc i)"
  by (subst formatBytes_loop.simps) (simp add: units_def)

lemma formatBytes_loop_unit_index:
  "formatBytes_loop bytes 0 = (bytes / 1024 ^ unit_index bytes, unit_index bytes)"
proof -
  consider "bytes < 1024" | "1024 \<le> bytes" "bytes < 1024 ^ 2"
    | "1024 ^ 2 \<le> bytes" "bytes < 1024 ^ 3" | "1024 ^ 3 \<le> bytes"
    by linarith
  then show ?thesis
  proof cases
    case 1
    then show ?thesis by (simp add: formatBytes_loop_stop unit_index_def)
  next
    case 2
    then have "bytes / 1024 < 1024" by simp
    with 2 show ?thesis
      by (simp add: formatBytes_loop_step formatBytes_loop_stop unit_index_def)
  next
    case 3
    then have a: "1024 \<le> bytes" "1024 \<le> bytes / 1024" "bytes / 1024 / 1024 < 1024"
      by simp_all
    have "formatBytes_loop bytes 0 = formatBytes_loop (bytes / 1024) (Suc 0)"
      using a by (simp add: formatBytes_loop_step)
    also have "\<dots> = formatBytes_loop (bytes / 1024 / 1024) (Suc (Suc 0))"
      using a by (simp add: formatBytes_loop_step)
    also have "\<dots> = (bytes / 1024 / 1024, 2)"
      using a by (simp add: formatBytes_loop_stop)
    finally show ?thesis using 3 by (simp add: unit_index_def)
  next
    case 4
    then have a: "1024 \<le> bytes" "1024 \<le> bytes / 1024" "1024 \<le> bytes / 1024 / 1024"
      by simp_all
    have "formatBytes_loop bytes 0 = formatBytes_loop (bytes / 1024) (Suc 0)"
      using a by (simp add: formatBytes_loop_step)
    also have "\<dots> = formatBytes_loop (bytes / 1024 / 1024) (Suc (Suc 0))"
      using a by (simp add: formatBytes_loop_step)
    also have "\<dots> = formatBytes_loop (bytes / 1024 / 1024 / 1024) (Suc (Suc (Suc 0)))"
      using a by (simp add: formatBytes_loop_step)
    also have "\<dots> = (bytes / 1024 / 1024 / 1024, 3)"
      by (simp add: formatBytes_loop_stop)
    finally show ?thesis using 4 by (simp add: unit_index_def)
  qed
qed

lemma decimal_one_digit: "n < 10 \<Longrightarrow> decimal n = [digit n]"
  by (subst decimal.simps) simp

lemma decimal_step: "10 \<le> n \<Longrightarrow> decimal n = decimal (n div 10) @ [digit (n mod 10)]"
  by (subst decimal.simps) simp

lemma length_decimal_pos: "0 < length (decimal n)"
  by (subst decimal.simps) simp

lemma decimal_two_digits:
  assumes "10 \<le> n" "n < 100"
  shows "decimal n = [digit (n div 10), digit (n mod 10)]"
proof -
  have "n div 10 < 10" using assms by simp
  then show ?thesis using assms by (simp add: decimal_step decimal_one_digit)
qed

lemma decimal_split:
  assumes "100 \<le> n"
  shows "decimal n = decimal (n div 100) @ [digit (n div 10 mod 10), digit (n mod 10)]"
proof -
  have "10 \<le> n" "10 \<le> n div 10" using assms by simp_all
  then have "decimal n = (decimal (n div 10 div 10) @ [digit (n div 10 mod 10)]) @ [digit (n mod 10)]"
    by (simp add: decimal_step)
  moreover have "n div 10 div 10 = n div (10 * 10)" by (simp only: div_mult2_eq)
  ultimately show ?thesis by simp
qed

lemma toFixed_two_decimals:
  assumes "0 \<le> x" "x < 10 ^ 21"
  shows "toFixed x 2 = two_decimals x"
proof -
  define n where "n = nat \<lfloor>x * 100 + 1 / 2\<rfloor>"
  have d0: "utf16 ''0'' = [digit 0]"
    by (simp add: utf16_def digit_def)
  have unfolded: "toFixed x 2 =
    (let m = (if n = 0 then utf16 ''0'' else decimal n);
         k = length m;
         m' = (if k \<le> 2 then replicate (2 + 1 - k) (digit 0) @ m else m);
         k' = (if k \<le> 2 then 2 + 1 else k)
     in take (k' - 2) m' @ utf16 ''.'' @ drop (k' - 2) m')"
    using assms by (simp add: toFixed_def Let_def n_def not_le)
  have spec: "two_decimals x =
    decimal (n div 100) @ utf16 ''.'' @ [digit (n div 10 mod 10), digit (n mod 10)]"
    by (simp add: two_decimals_def n_def Let_def)
  consider "n < 10" | "10 \<le> n" "n < 100" | "100 \<le> n" by linarith
  then show ?thesis
  proof cases
    case 1
    then show ?thesis
      unfolding unfolded spec
      by (simp add: Let_def d0 decimal_one_digit numeral_2_eq_2)
  next
    case 2
    then show ?thesis
      unfolding unfolded spec
      by (simp add: Let_def d0 decimal_two_digits decimal_one_digit)
  next
    case 3
    have len: "length (decimal n) = length (decimal (n div 100)) + 2"
      by (simp add: decimal_split [OF 3])
    have pos: "0 < length (decimal (n div 100))" by (rule length_decimal_pos)
    have n0: "n \<noteq> 0" using 3 by simp
    show ?thesis
      unfolding unfolded spec using pos n0
      by (simp add: Let_def len) (simp add: decimal_split [OF 3])
  qed
qed

text \<open>
  Claim C10, as amended.  For a non-negative number of bytes, the loop of
  \<^verbatim>\<open>formatBytes\<close> divides by 1024 until the value is below 1024 or the unit is GB: at
  most three times, never once the value is below 1024, an input below 1024 stays as
  it is in B, and an input of at least \<open>1024^3\<close> ends in GB.  When the value so scaled is below \<open>10^21\<close>, the result is that
  value with exactly two decimals, a space and the unit.
\<close>

theorem formatBytes_spec:
  "0 \<le> bytes \<Longrightarrow> bytes / 1024 ^ unit_index bytes < 10 ^ 21 \<Longrightarrow>
     formatBytes_loop bytes 0 = (bytes / 1024 ^ unit_index bytes, unit_index bytes)
     \<and> unit_index bytes \<le> 3
     \<and> (unit_index bytes < 3 \<longrightarrow> bytes / 1024 ^ unit_index bytes < 1024)
     \<and> (0 < unit_index bytes \<longrightarrow> 1024 \<le> bytes / 1024 ^ (unit_index bytes - 1))
     \<and> (bytes < 1024 \<longrightarrow> unit_index bytes = 0)
     \<and> (1024 ^ 3 \<le> bytes \<longrightarrow> unit_index bytes = 3)
     \<and> formatBytes bytes =
         two_decimals (bytes / 1024 ^ unit_index bytes) @ utf16 '' ''
           @ units ! unit_index bytes"
proof -
  assume nonneg: "0 \<le> bytes" and small: "bytes / 1024 ^ unit_index bytes < 10 ^ 21"
  have le3: "unit_index bytes \<le> 3"
    by (simp add: unit_index_def)
  have scaled: "0 \<le> bytes / 1024 ^ unit_index bytes"
    using nonneg by simp
  have unit: "units_at (unit_index bytes) = units ! unit_index bytes"
    using le3 by (simp add: units_at_def units_def)
  have "formatBytes bytes =
      toFixed (bytes / 1024 ^ unit_index bytes) 2 @ utf16 '' '' @ units_at (unit_index bytes)"
    by (simp add: formatBytes_def formatBytes_loop_unit_index)
  then have "formatBytes bytes =
      two_decimals (bytes / 1024 ^ unit_index bytes) @ utf16 '' '' @ units ! unit_index bytes"
    by (simp only: toFixed_two_decimals [OF scaled small] unit)
  moreover have "unit_index bytes < 3 \<longrightarrow> bytes / 1024 ^ unit_index bytes < 1024"
    by (simp add: unit_index_def)
  moreover have "0 < unit_index bytes \<longrightarrow> 1024 \<le> bytes / 1024 ^ (unit_index bytes - 1)"
    by (simp add: unit_index_def)
  moreover have "bytes < 1024 \<longrightarrow> unit_index bytes = 0"
    by (simp add: unit_index_def)
  moreover have "1024 ^ 3 \<le> bytes \<longrightarrow> unit_index bytes = 3"
    by (simp add: unit_index_def)
  ultimately show ?thesis
    using le3 formatBytes_loop_unit_index by blast
qed

text \<open>
  One and a half kibibytes: one division, and \<^verbatim>\<open>1.50 KB\<close>.
\<close>

lemma floor_rat_numeral_div:
  "\<lfloor>numeral a / numeral b :: rat\<rfloor> = numeral a div numeral b"
  by (metis floor_divide_of_int_eq of_int_numeral)

theorem formatBytes_spec_witness:
  "(0::rat) \<le> 1536 \<and> formatBytes_loop 1536 0 = (3 / 2, 1)
   \<and> formatBytes 1536 = utf16 ''1.50 KB''"
proof -
  have u: "unit_index 1536 = 1"
    by (simp add: unit_index_def)
  have r: "two_decimals (3 / 2) @ utf16 '' '' @ units ! 1 = utf16 ''1.50 KB''"
    by (simp add: two_decimals_def units_def utf16_def decimal.simps digit_def Let_def
        floor_rat_numeral_div)
  have "(0::rat) \<le> 1536" and "(1536::rat) / 1024 ^ unit_index 1536 < 10 ^ 21"
    by (simp_all add: u)
  from formatBytes_spec [OF this] show ?thesis
    using r by (simp add: u)
qed

text \<open>
  The claim as it was stated fails from \<open>10^21\<close> GB on: \<open>10^21 * 1024^3\<close> is a double
  (\<open>5^21 * 2^51\<close>), three divisions leave \<open>10^21\<close>, and \<^verbatim>\<open>toFixed\<close> gives
  Number::toString of it, \<^verbatim>\<open>1e+21\<close>, where two decimals would be
  \<^verbatim>\<open>1000000000000000000000.00\<close>.
\<close>

lemma candidates_1e21: "candidates 1000000000000000000000 (Suc 0) = [(1, 22)]"
  by (simp add: candidates_def Let_def round_double_def bit_length.simps decimal.simps)

lemma toFixed_1e21: "toFixed 1000000000000000000000 2 = utf16 ''1e+21''"
  by (simp add: toFixed_def Number_toString_large_def shortest_digits.simps candidates_1e21
      decimal.simps utf16_def digit_def)

lemma two_decimals_1e21:
  "two_decimals 1000000000000000000000 = utf16 ''1000000000000000000000.00''"
  by (simp add: two_decimals_def utf16_def decimal.simps digit_def Let_def
      floor_rat_numeral_div)

theorem formatBytes_counterexample:
  "formatBytes (10 ^ 21 * 1024 ^ 3) = utf16 ''1e+21 GB''
   \<and> formatBytes (10 ^ 21 * 1024 ^ 3)
       \<noteq> two_decimals (10 ^ 21 * 1024 ^ 3 / 1024 ^ unit_index (10 ^ 21 * 1024 ^ 3))
           @ utf16 '' '' @ units ! unit_index (10 ^ 21 * 1024 ^ 3)"
proof -
  have u: "unit_index 1073741824000000000000000000000 = 3"
    by (simp add: unit_index_def)
  have size': "(1073741824000000000000000000000::rat) / 1024 ^ 3 = 1000000000000000000000"
    by simp
  have "formatBytes 1073741824000000000000000000000 = utf16 ''1e+21 GB''"
    by (simp only: formatBytes_def formatBytes_loop_unit_index u size')
      (simp add: toFixed_1e21 units_at_def units_def utf16_def)
  moreover have "two_decimals (1073741824000000000000000000000 /
        1024 ^ unit_index 1073741824000000000000000000000)
      @ utf16 '' '' @ units ! unit_index 1073741824000000000000000000000
      = utf16 ''1000000000000000000000.00 GB''"
    by (simp only: u size' two_decimals_1e21) (simp add: units_def utf16_def)
  ultimately show ?thesis
    by (simp add: utf16_def)
qed

section \<open>Properties of the declarations\<close>

text \<open>
  Claim C8, as amended.  The \<^verbatim>\<open>blocks\<close> table has the sixteen columns listed for the
  Block row, in that order, with \<^verbatim>\<open>hash\<close> its primary key, and after them one more
  column, \<^verbatim>\<open>created_at\<close>, which defaults to the time of insertion.  Of the columns after
  \<^verbatim>\<open>hash\<close>, exactly the four marked optional and \<^verbatim>\<open>created_at\<close> admit \<^verbatim>\<open>NULL\<close>.  The
  \<^verbatim>\<open>block_parents\<close> table has exactly the columns \<^verbatim>\<open>block_hash\<close>, \<^verbatim>\<open>parent_hash\<close> and
  \<^verbatim>\<open>level\<close>, none of which admits \<^verbatim>\<open>NULL\<close> and which together are its key.
\<close>

theorem schema_Block_BlockParent:
  "map fst (row_shape blocks) = map fst spec_Block @ [''created_at'']
   \<and> tl (row_shape blocks) = tl spec_Block @ [(''created_at'', True)]
   \<and> key_columns blocks = [''hash'']
   \<and> map col_default (tbl_columns blocks) = replicate 16 None @ [Some CURRENT_TIMESTAMP]
   \<and> row_shape block_parents = spec_BlockParent
   \<and> key_columns block_parents = [''block_hash'', ''parent_hash'', ''level'']"
  by (simp add: row_shape_def nullable_def key_columns_def blocks_def block_parents_def
      col_def spec_Block_def spec_BlockParent_def numeral_eq_Suc)

text \<open>
  The \<^verbatim>\<open>hash\<close> column itself is declared \<^verbatim>\<open>TEXT PRIMARY KEY\<close> without \<^verbatim>\<open>NOT NULL\<close>,
  so that in SQLite it admits \<^verbatim>\<open>NULL\<close>, where the row shape of the specification
  lists it as required.
\<close>

lemma blocks_hash_admits_null:
  "hd (row_shape blocks) = (''hash'', True) \<and> hd spec_Block = (''hash'', False)"
  by (simp add: row_shape_def nullable_def blocks_def col_def spec_Block_def)

text \<open>
  The claim as it was stated, that the Block row has the listed columns and no more,
  fails on \<^verbatim>\<open>created_at\<close>.
\<close>

theorem schema_Block_counterexample:
  "row_shape blocks \<noteq> spec_Block
   \<and> ''created_at'' \<in> set (map col_name (tbl_columns blocks))
   \<and> ''created_at'' \<notin> set (map fst spec_Block)"
  by (simp add: row_shape_def nullable_def blocks_def col_def spec_Block_def)

section \<open>Properties of the indexer\<close>

subsection \<open>What each step changes\<close>

lemma foldE_invariant:
  assumes "foldE f xs s = Inr s'" and "P s"
    and "\<And>x t t'. x \<in> set xs \<Longrightarrow> P t \<Longrightarrow> f x t = Inr t' \<Longrightarrow> P t'"
  shows "P s'"
  using assms
proof (induction xs arbitrary: s)
  case Nil
  then show ?case by simp
next
  case (Cons x xs)
  from Cons.prems(1) obtain t where t: "f x s = Inr t" and rest: "foldE f xs t = Inr s'"
    by (auto split: sum.splits)
  have "P t" using Cons.prems(2,3) t by auto
  with rest Cons.IH Cons.prems(3) show ?case by auto
qed

lemma fold_invariant:
  assumes "P s" and "\<And>x t. x \<in> set xs \<Longrightarrow> P t \<Longrightarrow> P (f x t)"
  shows "P (fold f xs s)"
  using assms by (induction xs arbitrary: s) auto

lemma spend_same_ledger:
  "spend s h i sh si = Inr s' \<Longrightarrow> same_ledger s s'"
  by (auto simp: spend_def same_ledger_def split: option.splits if_splits)

lemma create_same_ledger:
  "create s h i out = Inr s' \<Longrightarrow> same_ledger s s'"
  by (auto simp: create_def same_ledger_def split: option.splits)

lemma spend_input_same_ledger:
  "spend_input seenAt x (s, d) = Inr (s', d') \<Longrightarrow> same_ledger s s'"
  by (auto simp: spend_input_def same_ledger_def dest!: spend_same_ledger
      split: prod.splits option.splits sum.splits)

lemma create_output_same_ledger:
  "create_output seenAt x (s, d) = Inr (s', d') \<Longrightarrow> same_ledger s s'"
  by (auto simp: create_output_def same_ledger_def dest!: create_same_ledger
      split: prod.splits sum.splits)

lemma applyDelta_same_ledger: "same_ledger s (applyDelta d s)"
  by (simp add: applyDelta_def same_ledger_def Let_def)

lemma same_ledger_refl: "same_ledger s s"
  by (simp add: same_ledger_def)

lemma same_ledger_trans: "same_ledger s t \<Longrightarrow> same_ledger t u \<Longrightarrow> same_ledger s u"
  by (simp add: same_ledger_def)

lemma spend_inputs_same_ledger:
  assumes "foldE (spend_input seenAt) xs (s, d) = Inr (s', d')"
  shows "same_ledger s s'"
proof -
  have "same_ledger s (fst (s', d'))"
  proof (rule foldE_invariant [OF assms, where P = "\<lambda>sd. same_ledger s (fst sd)"])
    show "same_ledger s (fst (s, d))"
      by (simp add: same_ledger_refl)
  next
    fix x t t'
    assume "same_ledger s (fst t)" and "spend_input seenAt x t = Inr t'"
    then show "same_ledger s (fst t')"
      using spend_input_same_ledger [of seenAt x "fst t" "snd t" "fst t'" "snd t'"]
      by (auto intro: same_ledger_trans)
  qed
  then show ?thesis by simp
qed

lemma create_outputs_same_ledger:
  assumes "foldE (create_output seenAt) xs (s, d) = Inr (s', d')"
  shows "same_ledger s s'"
proof -
  have "same_ledger s (fst (s', d'))"
  proof (rule foldE_invariant [OF assms, where P = "\<lambda>sd. same_ledger s (fst sd)"])
    show "same_ledger s (fst (s, d))"
      by (simp add: same_ledger_refl)
  next
    fix x t t'
    assume "same_ledger s (fst t)" and "create_output seenAt x t = Inr t'"
    then show "same_ledger s (fst t')"
      using create_output_same_ledger [of seenAt x "fst t" "snd t" "fst t'" "snd t'"]
      by (auto intro: same_ledger_trans)
  qed
  then show ?thesis by simp
qed

lemma applyDeltas_same_ledger: "same_ledger s (fold applyDelta ds s)"
  by (rule fold_invariant) (auto simp: same_ledger_refl intro: same_ledger_trans applyDelta_same_ledger)

lemma apply_steps_same_ledger:
  assumes "apply_steps block transactions s = Inr s'"
  shows "same_ledger (confirm_transactions block transactions (insert_block block s)) s'"
proof -
  let ?seen = "(blk_height (fb_row block), blk_timestamp (fb_row block))"
  let ?s2 = "confirm_transactions block transactions (insert_block block s)"
  from assms obtain s3 d3 s4 d4 where
    3: "foldE (spend_input ?seen) (block_inputs transactions) (?s2, []) = Inr (s3, d3)" and
    4: "foldE (create_output ?seen) (block_outputs transactions) (s3, d3) = Inr (s4, d4)" and
    5: "s' = fold applyDelta d4 s4"
    by (auto simp: apply_steps_def Let_def split: sum.splits prod.splits)
  from spend_inputs_same_ledger [OF 3] create_outputs_same_ledger [OF 4]
    applyDeltas_same_ledger [of s4 d4] 5
  show ?thesis by (auto intro: same_ledger_trans)
qed


lemma confirm_fold_frame:
  "st_blocks (fold (confirm_transaction block) itxs s) = st_blocks s
   \<and> st_block_parents (fold (confirm_transaction block) itxs s) = st_block_parents s
   \<and> st_transaction_outputs (fold (confirm_transaction block) itxs s) = st_transaction_outputs s"
  by (induction itxs arbitrary: s)
    (auto simp: confirm_transaction_def confirm_def split: prod.splits)

lemma confirm_fold_mempool:
  "st_mempool_transactions (fold (confirm_transaction block) itxs s) h =
     (if h \<in> set (map (ft_hash \<circ> snd) itxs) then None else st_mempool_transactions s h)"
  by (induction itxs arbitrary: s)
    (auto simp: confirm_transaction_def confirm_def split: prod.splits)

lemma confirm_transaction_transactions:
  "st_transactions (confirm_transaction block itx s) h = Some r \<Longrightarrow>
     st_transactions s h = Some r \<or> h = ft_hash (snd itx) \<and> tx_is_confirmed r"
  by (auto simp: confirm_transaction_def confirm_def split: prod.splits if_splits)

lemma confirm_fold_transactions:
  "st_transactions (fold (confirm_transaction block) itxs s) h = Some r \<Longrightarrow>
     st_transactions s h = Some r
     \<or> h \<in> set (map (ft_hash \<circ> snd) itxs) \<and> tx_is_confirmed r"
proof (induction itxs arbitrary: s)
  case Nil
  then show ?case by simp
next
  case (Cons itx itxs)
  from Cons.prems
  have "st_transactions (fold (confirm_transaction block) itxs (confirm_transaction block itx s)) h
      = Some r"
    by simp
  from Cons.IH [OF this] show ?case
    using confirm_transaction_transactions [of block itx s h r] by auto
qed

lemma enumerate_hashes:
  "map (ft_hash \<circ> snd) (enumerate n transactions) = map ft_hash transactions"
  by (simp add: map_snd_enumerate flip: map_map)

lemma confirm_transactions_frame:
  "st_blocks (confirm_transactions block transactions s) = st_blocks s"
  "st_transaction_outputs (confirm_transactions block transactions s) = st_transaction_outputs s"
  by (simp_all add: confirm_transactions_def confirm_fold_frame)

lemma confirm_transactions_mempool:
  "st_mempool_transactions (confirm_transactions block transactions s) h =
     (if h \<in> set (map ft_hash transactions) then None else st_mempool_transactions s h)"
  by (simp only: confirm_transactions_def confirm_fold_mempool enumerate_hashes)

lemma confirm_transactions_transactions:
  "st_transactions (confirm_transactions block transactions s) h = Some r \<Longrightarrow>
     st_transactions s h = Some r \<or> h \<in> set (map ft_hash transactions) \<and> tx_is_confirmed r"
  unfolding confirm_transactions_def
  by (drule confirm_fold_transactions) (simp only: enumerate_hashes)

lemma apply_steps_blocks:
  assumes "apply_steps block transactions s = Inr s'"
  shows "st_blocks s' = (st_blocks s)(fb_hash block \<mapsto> fb_row block)"
  using apply_steps_same_ledger [OF assms]
  by (simp add: same_ledger_def confirm_transactions_frame insert_block_def)

lemma apply_steps_mempool:
  assumes "apply_steps block transactions s = Inr s'"
  shows "st_mempool_transactions s' h =
     (if h \<in> set (map ft_hash transactions) then None else st_mempool_transactions s h)"
  using apply_steps_same_ledger [OF assms]
  by (simp add: same_ledger_def confirm_transactions_mempool insert_block_def)

lemma apply_steps_transactions:
  assumes "apply_steps block transactions s = Inr s'" and "st_transactions s' h = Some r"
  shows "st_transactions s h = Some r \<or> h \<in> set (map ft_hash transactions) \<and> tx_is_confirmed r"
proof -
  have "st_transactions (confirm_transactions block transactions (insert_block block s)) h
      = Some r"
    using apply_steps_same_ledger [OF assms(1)] assms(2) by (simp add: same_ledger_def)
  from confirm_transactions_transactions [OF this] show ?thesis
    by (simp add: insert_block_def)
qed

subsection \<open>A block with a dangling input\<close>






subsection \<open>Operations on the mempool\<close>

lemma observe_mempool:
  "st_mempool_transactions s h = Some row \<Longrightarrow>
     st_mempool_transactions (observe now tx s) h \<noteq> None"
  by (auto simp: observe_def split: option.splits)

lemma applyBlock_mempool:
  assumes "st_mempool_transactions s h = Some row"
  shows "st_mempool_transactions (fst (applyBlock block transactions s)) h = None
     \<longleftrightarrow> confirms s (ApplyBlock block transactions) h"
proof (cases "apply_steps block transactions s")
  case (Inl e)
  then show ?thesis
    using assms by (auto simp: applyBlock_def confirms_def)
next
  case (Inr s')
  from apply_steps_mempool [OF this] have "st_mempool_transactions s' h
      = (if h \<in> set (map ft_hash transactions) then None else st_mempool_transactions s h)" .
  then show ?thesis
    using assms Inr by (auto simp: applyBlock_def confirms_def)
qed

lemma perform_removes:
  assumes "st_mempool_transactions s h = Some row"
  shows "st_mempool_transactions (perform s op) h = None \<longleftrightarrow> confirms s op h \<or> evicts s op h"
proof (cases op)
  case (Observe now tx)
  then show ?thesis
    using observe_mempool [OF assms] by (simp add: confirms_def evicts_def)
next
  case (ApplyBlock block transactions)
  then show ?thesis
    using applyBlock_mempool [OF assms] by (simp add: evicts_def)
next
  case (Evict now ttl)
  then show ?thesis
    using assms by (simp add: evict_def confirms_def evicts_def)
qed

lemma perform_transactions:
  assumes "st_transactions (perform s op) h = Some r"
  shows "st_transactions s h = Some r \<or> confirms s op h \<and> tx_is_confirmed r"
proof (cases op)
  case (Observe now tx)
  then show ?thesis
    using assms by (auto simp: observe_def split: option.splits)
next
  case (Evict now ttl)
  then show ?thesis
    using assms by (simp add: evict_def)
next
  case (ApplyBlock block transactions)
  show ?thesis
  proof (cases "snd (applyBlock block transactions s) = None
      \<and> fb_hash block \<notin> dom (st_blocks s)")
    case True
    then have steps: "apply_steps block transactions s
        = Inr (fst (applyBlock block transactions s))"
      by (auto simp: applyBlock_def split: if_splits sum.splits)
    from apply_steps_transactions [OF steps] assms ApplyBlock True show ?thesis
      by (auto simp: confirms_def)
  next
    case False
    then have "fst (applyBlock block transactions s) = s"
      by (auto simp: applyBlock_def split: if_splits sum.splits)
    with assms ApplyBlock show ?thesis by simp
  qed
qed

lemma run_snoc: "run s (ops @ [op]) = perform (run s ops) op"
  by (simp add: run_def)

lemma run_transactions:
  "st_transactions (run empty_store ops) h = Some r \<Longrightarrow>
     tx_is_confirmed r
     \<and> (\<exists>before op after. ops = before @ op # after \<and> confirms (run empty_store before) op h)"
proof (induction ops arbitrary: r rule: rev_induct)
  case Nil
  then show ?case by (simp add: run_def empty_store_def)
next
  case (snoc op ops)
  from snoc.prems have "st_transactions (perform (run empty_store ops) op) h = Some r"
    by (simp add: run_snoc)
  from perform_transactions [OF this] show ?case
  proof
    assume "st_transactions (run empty_store ops) h = Some r"
    from snoc.IH [OF this] obtain before op' after where
      "tx_is_confirmed r" "ops = before @ op' # after" "confirms (run empty_store before) op' h"
      by blast
    then have "ops @ [op] = before @ op' # (after @ [op])" by simp
    with \<open>tx_is_confirmed r\<close> \<open>confirms (run empty_store before) op' h\<close> show ?thesis
      by blast
  next
    assume "confirms (run empty_store ops) op h \<and> tx_is_confirmed r"
    then show ?thesis by blast
  qed
qed

lemma evict_frame:
  "st_transactions (evict now ttl s) = st_transactions s"
  "st_transaction_outputs (evict now ttl s) = st_transaction_outputs s"
  "st_addresses (evict now ttl s) = st_addresses s"
  by (simp_all add: evict_def)

subsection \<open>The scenario, evaluated\<close>

lemmas indexer_defs =
  applyBlock_def apply_steps_def insert_block_def confirm_transactions_def
  confirm_transaction_def confirm_def block_inputs_def block_outputs_def
  previous_outpoint_def spend_input_def spend_def create_output_def create_def
  received_delta_def sent_delta_def applyDelta_def Let_def new_address_def
  set_if_unset_def advance_def empty_store_def

lemma after_G_eq:
  "after_G =
     \<lparr>st_blocks = [''G'' \<mapsto> header 0], st_block_parents = {},
      st_transactions = [''T0'' \<mapsto> (pending 0 1 True)\<lparr>tx_block_hash := Some ''G'',
         tx_block_height := Some 0, tx_index_in_block := Some 0, tx_is_confirmed := True\<rparr>],
      st_transaction_inputs = Map.empty,
      st_transaction_outputs = [(''T0'', 0) \<mapsto> \<lparr>out_value = 500,
         out_script_public_key_version = None, out_script_public_key_script = [],
         out_address = None, out_is_spent = False, out_spent_by_tx_hash = None,
         out_spent_by_input_index = None\<rparr>],
      st_addresses = Map.empty,
      st_mempool_transactions = Map.empty\<rparr>"
  by (simp add: after_G_def indexer_defs G_def T0_def pays_def header_def)

lemma B1_accepted: "snd (applyBlock B1 [T1] after_G) = None"
  by (simp add: after_G_eq) (simp add: indexer_defs B1_def T1_def pays_def spends_def)

lemma observed_eq:
  "observed = after_G\<lparr>st_mempool_transactions :=
     [''T1'' \<mapsto> \<lparr>mp_version = 1, mp_lock_time = None, mp_fee = None, mp_size = 0,
        mp_first_seen = 1700000000, mp_last_seen = 1700000000\<rparr>]\<rparr>"
  by (simp add: observed_def observe_def after_G_eq M1_def)

lemma B1_confirms_T1: "confirms observed (ApplyBlock B1 [T1]) ''T1''"
  by (simp add: confirms_def observed_eq after_G_eq)
    (simp add: indexer_defs B1_def T1_def pays_def spends_def)

lemma T1_row: "st_transactions (fst (applyBlock B1 [T1] observed)) ''T1'' \<noteq> None"
  by (simp add: observed_eq after_G_eq)
    (simp add: indexer_defs B1_def T1_def pays_def spends_def)

subsection \<open>The claims about the indexer\<close>

text \<open>
  Claim C1.  A block that \<^verbatim>\<open>applyBlock\<close> has accepted is in the Block table, so that
  applying it again finds its hash there and changes nothing: the store after the second
  apply is the store after the first.
\<close>

theorem applyBlock_idempotent:
  "applyBlock block transactions s = (s', None) \<Longrightarrow>
     applyBlock block transactions s' = (s', None)"
proof -
  assume first: "applyBlock block transactions s = (s', None)"
  have "fb_hash block \<in> dom (st_blocks s')"
  proof (cases "fb_hash block \<in> dom (st_blocks s)")
    case True
    with first show ?thesis by (simp add: applyBlock_def)
  next
    case False
    with first have "apply_steps block transactions s = Inr s'"
      by (auto simp: applyBlock_def split: if_splits sum.splits)
    from apply_steps_blocks [OF this] show ?thesis by simp
  qed
  then show ?thesis by (simp add: applyBlock_def)
qed

theorem applyBlock_idempotent_witness:
  "snd (applyBlock B1 [T1] after_G) = None
   \<and> applyBlock B1 [T1] (fst (applyBlock B1 [T1] after_G))
       = (fst (applyBlock B1 [T1] after_G), None)"
proof -
  have "applyBlock B1 [T1] after_G = (fst (applyBlock B1 [T1] after_G), None)"
    using B1_accepted by (simp add: prod_eq_iff)
  from applyBlock_idempotent [OF this] B1_accepted show ?thesis by simp
qed




text \<open>
  Claim C6, as amended.  An operation removes a transaction that is in the Mempool
  Tracker exactly when it applies a new block that holds the transaction, and so confirms
  it, or when it is an eviction and the transaction's row has expired.  An eviction
  changes no Transaction and no UTXO row, so it marks nothing confirmed; and along any
  sequence of observations, block applications and evictions from the empty store, a
  Transaction row is there only for a transaction that a block application of the
  sequence has confirmed, and is marked confirmed.
\<close>

theorem mempool_removal:
  "(st_mempool_transactions s h \<noteq> None \<longrightarrow>
      (st_mempool_transactions (perform s op) h = None
         \<longleftrightarrow> confirms s op h \<or> evicts s op h))
   \<and> st_transactions (perform s (Evict now ttl)) = st_transactions s
   \<and> st_transaction_outputs (perform s (Evict now ttl)) = st_transaction_outputs s
   \<and> (\<forall>r. st_transactions (run empty_store ops) h = Some r \<longrightarrow>
         tx_is_confirmed r
         \<and> (\<exists>before op after. ops = before @ op # after
               \<and> confirms (run empty_store before) op h))"
  using perform_removes [of s h _ op] run_transactions [of ops h]
  by (auto simp: evict_frame)

text \<open>
  The transaction of \<open>B1\<close>, observed in the mempool, then confirmed by \<open>B1\<close>.
\<close>

theorem mempool_removal_witness:
  "st_mempool_transactions observed ''T1'' \<noteq> None
   \<and> confirms observed (ApplyBlock B1 [T1]) ''T1''
   \<and> st_mempool_transactions (perform observed (ApplyBlock B1 [T1])) ''T1'' = None
   \<and> (\<exists>r. st_transactions
          (run empty_store [ApplyBlock G [T0], Observe 1700000000 M1, ApplyBlock B1 [T1]])
          ''T1'' = Some r
        \<and> tx_is_confirmed r)"
proof -
  let ?ops = "[ApplyBlock G [T0], Observe 1700000000 M1, ApplyBlock B1 [T1]]"
  note inst = mempool_removal [of observed "''T1''" "ApplyBlock B1 [T1]" 0 0 ?ops]
  have present: "st_mempool_transactions observed ''T1'' \<noteq> None"
    by (simp add: observed_eq)
  with inst B1_confirms_T1
  have removed: "st_mempool_transactions (perform observed (ApplyBlock B1 [T1])) ''T1'' = None"
    by blast
  have "run empty_store ?ops = fst (applyBlock B1 [T1] observed)"
    by (simp add: run_def observed_def after_G_def)
  with T1_row obtain r where r: "st_transactions (run empty_store ?ops) ''T1'' = Some r"
    by auto
  with inst have "tx_is_confirmed r"
    by blast
  with present B1_confirms_T1 removed r show ?thesis
    by blast
qed

text \<open>
  The claim as it was stated, that a transaction leaves the mempool only when a block
  confirms it, fails on an eviction: two hours after its observation, with a time to live
  of one hour, the transaction is removed and no block has confirmed it.
\<close>

theorem mempool_removal_counterexample:
  "st_mempool_transactions observed ''T1'' \<noteq> None
   \<and> st_mempool_transactions (perform observed (Evict 1700007200 3600)) ''T1'' = None
   \<and> \<not> confirms observed (Evict 1700007200 3600) ''T1''"
  by (simp add: observed_eq evict_def expired_def confirms_def)

end
